theory Spec2Isabelle
  imports Main "HOL-Library.Sublist" "HOL-Library.Code_Target_Nat"
begin

section \<open>The host package-manifest generator of the command-line client\<close>

text \<open>
  The development embeds the functions of the package-manifest generator (package
  \<^verbatim>\<open>cmd\<close>): \<^verbatim>\<open>GeneratePackageManifest\<close>,
  \<^verbatim>\<open>removeInactivePackagesFromManifest\<close>, \<^verbatim>\<open>detectActiveKernel\<close>,
  \<^verbatim>\<open>GetOSInfo\<close>, \<^verbatim>\<open>DetectPackageManager\<close>,
  \<^verbatim>\<open>checkPackageManager\<close>, \<^verbatim>\<open>checkPackageManagerWithNativeCommand\<close> and
  \<^verbatim>\<open>removeEpochFromPkgVersion\<close>.

  A Go string is a sequence of bytes, and so is a HOL \<^typ>\<open>string\<close>. What the program
  reads from the host (the release file and the outputs of the commands it runs) is a
  record of inputs, \<open>host\<close>; every function that runs a command takes it as its first
  argument. Logging and telemetry (\<^verbatim>\<open>c.Log\<close>, \<^verbatim>\<open>c.Event\<close>) only write to sinks and never
  decide a branch; they are left out.
\<close>

subsection \<open>The functions of Go's \<^verbatim>\<open>strings\<close> package that the program calls\<close>

definition NL :: string where
  "NL = [CHR 0x0A]"

definition CR :: char where
  "CR = CHR 0x0D"

definition DQUOTE :: string where
  "DQUOTE = [CHR 0x22]"

text \<open>\<^verbatim>\<open>strings.HasPrefix\<close> and \<^verbatim>\<open>strings.HasSuffix\<close>.\<close>

definition HasPrefix :: "string \<Rightarrow> string \<Rightarrow> bool" where
  "HasPrefix s pre = prefix pre s"

definition HasSuffix :: "string \<Rightarrow> string \<Rightarrow> bool" where
  "HasSuffix s suf = suffix suf s"

text \<open>
  \<^verbatim>\<open>strings.Index(s, substr)\<close>: the position of the first occurrence of \<open>substr\<close> in
  \<open>s\<close>; Go's \<open>-1\<close> is \<open>None\<close>.
\<close>

fun Index :: "string \<Rightarrow> string \<Rightarrow> nat option" where
  "Index [] substr = (if substr = [] then Some 0 else None)"
| "Index (c # s) substr =
     (if HasPrefix (c # s) substr then Some 0 else map_option Suc (Index s substr))"

text \<open>\<^verbatim>\<open>strings.Contains(s, substr)\<close> is \<^verbatim>\<open>Index(s, substr) >= 0\<close>.\<close>

definition Contains :: "string \<Rightarrow> string \<Rightarrow> bool" where
  "Contains s substr = (Index s substr \<noteq> None)"

definition TrimPrefix :: "string \<Rightarrow> string \<Rightarrow> string" where
  "TrimPrefix s pre = (if HasPrefix s pre then drop (length pre) s else s)"

definition TrimSuffix :: "string \<Rightarrow> string \<Rightarrow> string" where
  "TrimSuffix s suf = (if HasSuffix s suf then take (length s - length suf) s else s)"

text \<open>
  \<^verbatim>\<open>strings.Trim(s, cutset)\<close> removes every leading and every trailing character that
  is in \<open>cutset\<close>. The program's cut sets are the single characters \<^verbatim>\<open>"\<close> and \<^verbatim>\<open>-\<close>.
\<close>

definition TrimLeft :: "string \<Rightarrow> string \<Rightarrow> string" where
  "TrimLeft s cutset = dropWhile (\<lambda>c. c \<in> set cutset) s"

definition TrimRight :: "string \<Rightarrow> string \<Rightarrow> string" where
  "TrimRight s cutset = rev (dropWhile (\<lambda>c. c \<in> set cutset) (rev s))"

definition Trim :: "string \<Rightarrow> string \<Rightarrow> string" where
  "Trim s cutset = TrimLeft (TrimRight s cutset) cutset"

text \<open>
  \<^verbatim>\<open>strings.Split(s, sep)\<close> cuts \<open>s\<close> at every occurrence of \<open>sep\<close>, found from the
  left with \<^verbatim>\<open>Index\<close>; the result has one more element than there are occurrences.
  With an empty separator Go splits after each UTF-8 sequence, the model after each
  byte; the program only passes the one-character separators newline, comma and colon.
\<close>

lemma Index_bound: "Index s sep = Some m \<Longrightarrow> m + length sep \<le> length s"
proof (induction s arbitrary: m)
  case Nil
  then show ?case by (simp split: if_splits)
next
  case (Cons c s)
  show ?case
  proof (cases "HasPrefix (c # s) sep")
    case True
    with Cons.prems have "m = 0" by simp
    moreover from True have "length sep \<le> length (c # s)"
      unfolding HasPrefix_def by (rule prefix_length_le)
    ultimately show ?thesis by simp
  next
    case False
    with Cons.prems obtain k where "Index s sep = Some k" "m = Suc k" by auto
    with Cons.IH [of k] show ?thesis by simp
  qed
qed

function Split :: "string \<Rightarrow> string \<Rightarrow> string list" where
  "Split s sep =
     (if sep = [] then map (\<lambda>c. [c]) s
      else (case Index s sep of
              None \<Rightarrow> [s]
            | Some m \<Rightarrow> take m s # Split (drop (m + length sep) s) sep))"
  by pat_completeness auto
termination
proof (relation "measure (\<lambda>(s, sep). length s)")
  show "wf (measure (\<lambda>(s, sep). length s))" by simp
next
  fix s sep :: string and m :: nat
  assume sep: "sep \<noteq> []" and idx: "Index s sep = Some m"
  from sep obtain c t where "sep = c # t" by (cases sep) auto
  with Index_bound [OF idx] have "length (drop (m + length sep) s) < length s"
    by simp
  then show "((drop (m + length sep) s, sep), (s, sep)) \<in> measure (\<lambda>(s, sep). length s)"
    by simp
qed

declare Split.simps [simp del]

text \<open>\<^verbatim>\<open>strings.Join(elems, sep)\<close>.\<close>

fun Join :: "string list \<Rightarrow> string \<Rightarrow> string" where
  "Join [] sep = []"
| "Join [x] sep = x"
| "Join (x # y # ys) sep = x @ sep @ Join (y # ys) sep"

text \<open>
  \<^verbatim>\<open>strings.Replace(s, old, new, 1)\<close>: the first occurrence of \<open>old\<close> is replaced by
  \<open>new\<close>; without an occurrence \<open>s\<close> is returned as it is. (An empty \<open>old\<close> occurs at
  position 0.)
\<close>

definition Replace1 :: "string \<Rightarrow> string \<Rightarrow> string \<Rightarrow> string" where
  "Replace1 s old new =
     (case Index s old of
        None \<Rightarrow> s
      | Some m \<Rightarrow> take m s @ new @ drop (m + length old) s)"

subsection \<open>Data\<close>

text \<open>The struct \<^verbatim>\<open>OS\<close>.\<close>

record OS =
  Name :: string
  Version :: string

text \<open>
  Modelled from the spec: the declarations of \<^verbatim>\<open>api.OsPkgInfo\<close> and
  \<^verbatim>\<open>api.PackageManifest\<close> are not among the source files. The record has the four
  string fields the generator assigns (the spec's PackageRecord), the manifest the one
  list field \<^verbatim>\<open>OsPkgInfoList\<close> it appends to (the spec's ordered sequence of
  records).
\<close>

record OsPkgInfo =
  Os :: string
  OsVer :: string
  Pkg :: string
  PkgVer :: string

record PackageManifest =
  OsPkgInfoList :: "OsPkgInfo list"

text \<open>
  Errors are values: an error made with \<^verbatim>\<open>errors.New\<close> or returned by a command that
  failed carries its message, \<^verbatim>\<open>errors.Wrap\<close> puts a message around a cause, and the
  run-time panic of an index out of range carries the index and the length.
\<close>

datatype error =
    ErrorMsg string
  | Wrapped error string
  | PanicIndexOutOfRange nat nat

text \<open>
  The outcome of \<^verbatim>\<open>CombinedOutput\<close> on a presence check, as the code tells the cases
  apart: no error, with the exit status of the process state; an \<^verbatim>\<open>*exec.ExitError\<close>,
  with the exit status of its wait status; any other error.
\<close>

datatype cmd_result =
    Finished int
  | ExitError int
  | OtherError

text \<open>
  The inputs from the host: the content of \<^verbatim>\<open>/etc/os-release\<close> (\<open>None\<close> when it cannot
  be opened), the outcomes of \<^verbatim>\<open>which m\<close> and \<^verbatim>\<open>command -v m\<close> for a manager \<open>m\<close>,
  and the result of \<^verbatim>\<open>Output()\<close> for each of the other commands (\<open>Inl\<close> its error).
\<close>

record host =
  osReleaseFile :: "string option"
  which :: "string \<Rightarrow> cmd_result"
  command_v :: "string \<Rightarrow> cmd_result"
  uname_r :: "error + string"
  rpm_qa :: "error + string"
  dpkg_query_show :: "error + string"
  apk_info :: "error + string"
  apk_info_v :: "error + string"

subsection \<open>\<^verbatim>\<open>GetOSInfo\<close>\<close>

text \<open>
  \<^verbatim>\<open>bufio.Scanner\<close> with its default split function \<^verbatim>\<open>ScanLines\<close>: each token is a
  line without its end-of-line marker, a newline with one optional carriage return in
  front of it; the last line is returned also without a newline, unless it is empty.
  \<open>cur\<close> is the part of the current line that is in the scanner's buffer. The buffer
  grows to \<^verbatim>\<open>MaxScanTokenSize\<close> bytes and no further (the code does not call
  \<^verbatim>\<open>s.Buffer\<close>): once it is full of a line with no newline yet, \<^verbatim>\<open>Scan\<close> returns
  false with \<^verbatim>\<open>ErrTooLong\<close>. The code does not look at \<^verbatim>\<open>s.Err()\<close>, so its loop
  ends there with the lines read so far.
\<close>

definition MaxScanTokenSize :: nat where
  "MaxScanTokenSize = 64 * 1024"

definition dropCR :: "string \<Rightarrow> string" where
  "dropCR data = (if data \<noteq> [] \<and> last data = CR then butlast data else data)"

fun scanLinesFrom :: "string \<Rightarrow> string \<Rightarrow> string list" where
  "scanLinesFrom cur [] = (if cur = [] then [] else [dropCR cur])"
| "scanLinesFrom cur (c # cs) =
     (if c = CHR 0x0A then dropCR cur # scanLinesFrom [] cs
      else if MaxScanTokenSize \<le> length (cur @ [c]) then []
      else scanLinesFrom (cur @ [c]) cs)"

definition scanLines :: "string \<Rightarrow> string list" where
  "scanLines content = scanLinesFrom [] content"

text \<open>
  \<^verbatim>\<open>FindStringSubmatch\<close> for a pattern \<^verbatim>\<open>^KEY(.*)$\<close> with a literal \<open>KEY\<close>: without
  flags \<^verbatim>\<open>^\<close> and \<^verbatim>\<open>$\<close> match at the two ends of the text only, and \<^verbatim>\<open>.\<close> matches
  every character but the newline. The match is the whole text, the one group what
  follows the key.
\<close>

definition FindStringSubmatch :: "string \<Rightarrow> string \<Rightarrow> string list option" where
  "FindStringSubmatch key text =
     (if HasPrefix text key \<and> CHR 0x0A \<notin> set (drop (length key) text)
      then Some [text, drop (length key) text]
      else None)"

definition rexNameFromID :: "string \<Rightarrow> string list option" where
  "rexNameFromID = FindStringSubmatch ''ID=''"

definition rexVersionID :: "string \<Rightarrow> string list option" where
  "rexVersionID = FindStringSubmatch ''VERSION_ID=''"

text \<open>The loop \<^verbatim>\<open>for s.Scan()\<close> over the lines, updating \<open>osInfo\<close>.\<close>

fun scanOSRelease :: "string list \<Rightarrow> OS \<Rightarrow> OS" where
  "scanOSRelease [] osInfo = osInfo"
| "scanOSRelease (text # rest) osInfo =
     (case rexNameFromID text of
        Some m \<Rightarrow> scanOSRelease rest (osInfo\<lparr>Name := Trim (m ! 1) DQUOTE\<rparr>)
      | None \<Rightarrow>
         (case rexVersionID text of
            Some m \<Rightarrow> scanOSRelease rest (osInfo\<lparr>Version := Trim (m ! 1) DQUOTE\<rparr>)
          | None \<Rightarrow> scanOSRelease rest osInfo))"

definition unsupportedPlatformMsg :: string where
  "unsupportedPlatformMsg =
     ''unsupported platform'' @ NL @ NL @
     ''For more information about supported platforms, visit:'' @ NL @
     ''    https://support.lacework.com/hc/en-us/articles/360049666194-Host-Vulnerability-Assessment-Overview''"

definition GetOSInfo :: "host \<Rightarrow> error + OS" where
  "GetOSInfo h =
     (case osReleaseFile h of
        None \<Rightarrow> Inl (ErrorMsg unsupportedPlatformMsg)
      | Some content \<Rightarrow> Inr (scanOSRelease (scanLines content) \<lparr>Name = [], Version = []\<rparr>))"

subsection \<open>\<^verbatim>\<open>DetectPackageManager\<close>\<close>

definition SupportedPackageManagers :: "string list" where
  "SupportedPackageManagers = [''dpkg-query'', ''rpm'']"

definition checkPackageManagerWithNativeCommand :: "host \<Rightarrow> string \<Rightarrow> bool" where
  "checkPackageManagerWithNativeCommand h manager =
     (case command_v h manager of
        Finished status \<Rightarrow> status = 0
      | ExitError status \<Rightarrow> status = 0
      | OtherError \<Rightarrow> False)"

definition checkPackageManager :: "host \<Rightarrow> string \<Rightarrow> bool" where
  "checkPackageManager h manager =
     (case which h manager of
        Finished status \<Rightarrow> status = 0
      | ExitError status \<Rightarrow> status = 0
      | OtherError \<Rightarrow> checkPackageManagerWithNativeCommand h manager)"

text \<open>The loop over the managers: the first one whose check succeeds is returned.\<close>

fun detectLoop :: "host \<Rightarrow> string list \<Rightarrow> string option" where
  "detectLoop h [] = None"
| "detectLoop h (manager # rest) =
     (if checkPackageManager h manager then Some manager else detectLoop h rest)"

definition DetectPackageManager :: "host \<Rightarrow> error + string" where
  "DetectPackageManager h =
     (case detectLoop h SupportedPackageManagers of
        Some manager \<Rightarrow> Inr manager
      | None \<Rightarrow>
          Inl (ErrorMsg (''unable to find supported package managers.'' @
                 '' Supported package managers are '' @
                 Join SupportedPackageManagers '', '' @ ''.'')))"

subsection \<open>\<^verbatim>\<open>removeInactivePackagesFromManifest\<close>\<close>

definition removeEpochFromPkgVersion :: "string \<Rightarrow> string" where
  "removeEpochFromPkgVersion pkgVer =
     (if Contains pkgVer '':'' then
        (let pkgVerSplit = Split pkgVer '':'' in
         if length pkgVerSplit = 2 then pkgVerSplit ! 1 else pkgVer)
      else pkgVer)"

definition detectActiveKernel :: "host \<Rightarrow> string \<times> bool" where
  "detectActiveKernel h =
     (case uname_r h of
        Inl err \<Rightarrow> ([], False)
      | Inr kernelOut \<Rightarrow> (TrimSuffix kernelOut NL, True))"

text \<open>
  The \<^verbatim>\<open>switch\<close> in the loop body: \<open>True\<close> when the body reaches one of its two
  \<^verbatim>\<open>continue\<close> statements, so that the package is not appended.
\<close>

definition inactiveKernelPkg :: "string \<Rightarrow> string \<Rightarrow> OsPkgInfo \<Rightarrow> bool" where
  "inactiveKernelPkg manager activeKernel pkg =
     (if manager = ''rpm'' then
        (let kernelPkgName = ''kernel'';
             pkgVer = removeEpochFromPkgVersion (PkgVer pkg)
         in Pkg pkg = kernelPkgName \<and> \<not> Contains activeKernel pkgVer)
      else if manager = ''dpkg-query'' then
        (let kernelPkgName = ''linux-image-'' in
         if Contains (Pkg pkg) kernelPkgName then
           (let kernelVer = TrimPrefix (Pkg pkg) kernelPkgName
            in \<not> Contains activeKernel kernelVer)
         else False)
      else False)"

fun removeLoop :: "string \<Rightarrow> string \<Rightarrow> OsPkgInfo list \<Rightarrow> PackageManifest \<Rightarrow> PackageManifest" where
  "removeLoop manager activeKernel [] newManifest = newManifest"
| "removeLoop manager activeKernel (pkg # rest) newManifest =
     (if inactiveKernelPkg manager activeKernel pkg
      then removeLoop manager activeKernel rest newManifest
      else removeLoop manager activeKernel rest
             (newManifest\<lparr>OsPkgInfoList := OsPkgInfoList newManifest @ [pkg]\<rparr>))"

definition removeInactivePackagesFromManifest ::
    "host \<Rightarrow> PackageManifest \<Rightarrow> string \<Rightarrow> PackageManifest" where
  "removeInactivePackagesFromManifest h manifest manager =
     (case detectActiveKernel h of
        (activeKernel, detected) \<Rightarrow>
          if \<not> detected then manifest
          else removeLoop manager activeKernel (OsPkgInfoList manifest)
                 \<lparr>OsPkgInfoList = []\<rparr>)"

subsection \<open>\<^verbatim>\<open>GeneratePackageManifest\<close>\<close>

text \<open>
  The loop of the \<^verbatim>\<open>apk\<close> case: \<open>i\<close> and \<open>pkg\<close> range over
  \<open>apkInfoWithVersionArray\<close>, and \<open>apkInfoArray[i]\<close> is read with no check of \<open>i\<close>:
  out of range it panics.
\<close>

fun apkLoop :: "string list \<Rightarrow> nat \<Rightarrow> string list \<Rightarrow> string list \<Rightarrow> error + string list" where
  "apkLoop apkInfoArray i [] mq = Inr mq"
| "apkLoop apkInfoArray i (pkg # rest) mq =
     (if i < length apkInfoArray then
        apkLoop apkInfoArray (Suc i) rest
          (mq @ [apkInfoArray ! i @ '','' @
                 Trim (Replace1 pkg (apkInfoArray ! i) []) ''-''])
      else Inl (PanicIndexOutOfRange i (length apkInfoArray)))"

definition queryFailed :: "error \<Rightarrow> error" where
  "queryFailed err = Wrapped err ''unable to query packages from package manager''"

text \<open>The \<^verbatim>\<open>switch manager\<close> that fills \<open>managerQuery\<close>.\<close>

definition queryPackageManager :: "host \<Rightarrow> string \<Rightarrow> error + string" where
  "queryPackageManager h manager =
     (if manager = ''rpm'' then
        (case rpm_qa h of Inl err \<Rightarrow> Inl (queryFailed err) | Inr out \<Rightarrow> Inr out)
      else if manager = ''dpkg-query'' then
        (case dpkg_query_show h of Inl err \<Rightarrow> Inl (queryFailed err) | Inr out \<Rightarrow> Inr out)
      else if manager = ''yum'' then Inl (ErrorMsg ''yum not yet supported'')
      else if manager = ''apk'' then
        (case apk_info h of
           Inl err \<Rightarrow> Inl (queryFailed err)
         | Inr apkInfo \<Rightarrow>
            (let apkInfoT = TrimSuffix apkInfo NL;
                 apkInfoArray = Split apkInfoT NL
             in case apk_info_v h of
                  Inl err \<Rightarrow> Inl (queryFailed err)
                | Inr apkInfoWithVersion \<Rightarrow>
                   (let apkInfoWithVersionT = TrimSuffix apkInfoWithVersion NL;
                        apkInfoWithVersionArray = Split apkInfoWithVersionT NL
                    in case apkLoop apkInfoArray 0 apkInfoWithVersionArray [] of
                         Inl panic \<Rightarrow> Inl panic
                       | Inr mq \<Rightarrow> Inr (Join mq NL))))
      else Inl (ErrorMsg
        ''this is most likely a mistake on us, please report it to support@lacework.com.''))"

text \<open>
  The loop over the lines of the query's output: a line that does not split into two
  fields at its commas is skipped, any other appends a record.
\<close>

fun parseLoop :: "OS \<Rightarrow> string list \<Rightarrow> PackageManifest \<Rightarrow> PackageManifest" where
  "parseLoop osInfo [] manifest = manifest"
| "parseLoop osInfo (pkg # rest) manifest =
     (let pkgDetail = Split pkg '','' in
      if length pkgDetail \<noteq> 2 then parseLoop osInfo rest manifest
      else parseLoop osInfo rest
             (manifest\<lparr>OsPkgInfoList := OsPkgInfoList manifest @
                [\<lparr>Os = Name osInfo, OsVer = Version osInfo,
                  Pkg = pkgDetail ! 0, PkgVer = pkgDetail ! 1\<rparr>]\<rparr>))"

definition parseManagerQuery :: "OS \<Rightarrow> string \<Rightarrow> PackageManifest" where
  "parseManagerQuery osInfo managerQuery =
     (let managerQueryOut = TrimSuffix managerQuery NL
      in parseLoop osInfo (Split managerQueryOut NL) \<lparr>OsPkgInfoList = []\<rparr>)"

text \<open>
  The function up to its last statement: the manifest as parsed, with the detected
  manager. Every error is returned before a record is appended, so an error comes with
  the empty manifest, which the sum leaves out.
\<close>

definition enumeratePackages :: "host \<Rightarrow> error + (PackageManifest \<times> string)" where
  "enumeratePackages h =
     (case GetOSInfo h of
        Inl err \<Rightarrow> Inl err
      | Inr osInfo \<Rightarrow>
         (case DetectPackageManager h of
            Inl err \<Rightarrow> Inl err
          | Inr manager \<Rightarrow>
             (case queryPackageManager h manager of
                Inl err \<Rightarrow> Inl err
              | Inr managerQuery \<Rightarrow> Inr (parseManagerQuery osInfo managerQuery, manager))))"

definition GeneratePackageManifest :: "host \<Rightarrow> error + PackageManifest" where
  "GeneratePackageManifest h =
     (case enumeratePackages h of
        Inl err \<Rightarrow> Inl err
      | Inr (manifest, manager) \<Rightarrow>
          Inr (removeInactivePackagesFromManifest h manifest manager))"

subsection \<open>Notions of the specification\<close>

text \<open>
  The specification describes the epoch prefix as the text before the first colon. This
  function follows those words, for comparison with \<open>removeEpochFromPkgVersion\<close>:
  everything up to and including the first colon is removed, and a string with no colon
  is left as it is.
\<close>

definition stripThroughFirstColon :: "string \<Rightarrow> string" where
  "stripThroughFirstColon pkgVer =
     (if CHR '':'' \<in> set pkgVer then tl (dropWhile (\<lambda>c. c \<noteq> CHR '':'') pkgVer)
      else pkgVer)"

text \<open>
  The value of a key in the lines of a release file: the text after the key on the last
  line that starts with the key (a later line replaces an earlier one), without the
  double-quote characters at its two ends, and \<open>dflt\<close> when no line starts with the
  key.
\<close>

definition releaseValue :: "string \<Rightarrow> string \<Rightarrow> string list \<Rightarrow> string" where
  "releaseValue dflt key lines =
     (case filter (\<lambda>line. prefix key line) lines of
        [] \<Rightarrow> dflt
      | ms \<Rightarrow> Trim (drop (length key) (last ms)) DQUOTE)"

subsection \<open>Sample inputs\<close>

text \<open>
  Concrete hosts and a concrete manifest, on which the theorems below are instantiated:
  a Debian host with two installed kernel images of which the second one runs, and the
  manifest of a CentOS host with two kernel packages, seen with the kernel
  \<^verbatim>\<open>4.18.0-147.el8.x86_64\<close> running; an Alpine host with three packages, and a release
  file with a carriage return and with lines that carry neither key.
\<close>

definition debianHost :: host where
  "debianHost =
     \<lparr>osReleaseFile = Some (''NAME='' @ DQUOTE @ ''Debian GNU/Linux'' @ DQUOTE @ NL @
                             ''ID=debian'' @ NL @
                             ''VERSION_ID='' @ DQUOTE @ ''11'' @ DQUOTE @ NL),
      which = (\<lambda>manager. if manager = ''dpkg-query'' then Finished 0 else ExitError 1),
      command_v = (\<lambda>manager. OtherError),
      uname_r = Inr (''5.10.0-2-amd64'' @ NL),
      rpm_qa = Inl (ErrorMsg ''exec: rpm: executable file not found in $PATH''),
      dpkg_query_show = Inr (''linux-image-5.10.0-1-amd64,5.10.0-1'' @ NL @
                             ''linux-image-5.10.0-2-amd64,5.10.0-2'' @ NL @
                             ''onlyonefield'' @ NL @
                             ''curl,7.74.0-1.3'' @ NL),
      apk_info = Inl (ErrorMsg ''exec: apk: executable file not found in $PATH''),
      apk_info_v = Inl (ErrorMsg ''exec: apk: executable file not found in $PATH'')\<rparr>"

definition rpmManifest :: PackageManifest where
  "rpmManifest =
     \<lparr>OsPkgInfoList =
        [\<lparr>Os = ''centos'', OsVer = ''8'', Pkg = ''kernel'', PkgVer = ''0:4.18.0-80.el8''\<rparr>,
         \<lparr>Os = ''centos'', OsVer = ''8'', Pkg = ''bash'', PkgVer = ''0:4.4.19-7.el8''\<rparr>,
         \<lparr>Os = ''centos'', OsVer = ''8'', Pkg = ''kernel'', PkgVer = ''0:4.18.0-147.el8''\<rparr>,
         \<lparr>Os = ''centos'', OsVer = ''8'', Pkg = ''kernel-core'', PkgVer = ''0:4.18.0-80.el8''\<rparr>]\<rparr>"

definition centosHost :: host where
  "centosHost = debianHost\<lparr>uname_r := Inr (''4.18.0-147.el8.x86_64'' @ NL)\<rparr>"

definition alpineHost :: host where
  "alpineHost =
     debianHost\<lparr>apk_info := Inr (''musl'' @ NL @ ''busybox'' @ NL @ ''alpine-baselayout'' @ NL),
                apk_info_v := Inr (''musl-1.1.24-r2'' @ NL @ ''busybox-1.31.1-r9'' @ NL @
                                   ''alpine-baselayout-3.2.0-r3'' @ NL)\<rparr>"

definition sampleRelease :: string where
  "sampleRelease =
     ''NAME='' @ DQUOTE @ ''Debian GNU/Linux'' @ DQUOTE @ NL @
     ''ID=debian'' @ [CR] @ NL @
     ''ID_LIKE=none'' @ NL @
     ''VERSION_ID='' @ DQUOTE @ ''11'' @ DQUOTE @ NL @
     ''VERSION='' @ DQUOTE @ ''11 (bullseye)'' @ DQUOTE"

text \<open>A line of \<^verbatim>\<open>MaxScanTokenSize\<close> bytes, which starts with neither key.\<close>

definition longLine :: string where
  "longLine = replicate 65536 (CHR ''x'')"

section \<open>Facts about the string functions\<close>

text \<open>
  With a separator of one character, \<open>Index\<close> finds the first occurrence of the
  character, \<open>Contains\<close> is membership, and \<open>Split\<close> cuts at each occurrence.
  \<open>Contains\<close> is the substring relation of the library.
\<close>

lemma Index_char_None: "c \<notin> set s \<Longrightarrow> Index s [c] = None"
  by (induction s) (auto simp: HasPrefix_def)

lemma Index_char_first: "c \<notin> set a \<Longrightarrow> Index (a @ c # b) [c] = Some (length a)"
  by (induction a) (auto simp: HasPrefix_def)

lemma Contains_char: "Contains s [c] \<longleftrightarrow> c \<in> set s"
proof
  assume *: "Contains s [c]"
  show "c \<in> set s"
  proof (rule ccontr)
    assume "c \<notin> set s"
    then have "Index s [c] = None" by (rule Index_char_None)
    with * show False by (simp add: Contains_def)
  qed
next
  assume "c \<in> set s"
  then obtain a b where "s = a @ c # b" "c \<notin> set a"
    by (auto dest: split_list_first)
  then show "Contains s [c]"
    by (simp add: Contains_def Index_char_first)
qed


lemma Contains_sublist: "Contains s sub \<longleftrightarrow> sublist sub s"
proof (induction s)
  case Nil
  then show ?case by (simp add: Contains_def)
next
  case (Cons c s)
  show ?case
  proof (cases "prefix sub (c # s)")
    case True
    then show ?thesis by (simp add: Contains_def HasPrefix_def prefix_imp_sublist)
  next
    case False
    then have "Contains (c # s) sub \<longleftrightarrow> Contains s sub"
      by (simp add: Contains_def HasPrefix_def)
    also have "\<dots> \<longleftrightarrow> sublist sub s" by (rule Cons.IH)
    also have "\<dots> \<longleftrightarrow> sublist sub (c # s)"
      using False by (simp add: sublist_Cons_right)
    finally show ?thesis .
  qed
qed

lemma Split_char_none: "c \<notin> set s \<Longrightarrow> Split s [c] = [s]"
  by (subst Split.simps) (simp add: Index_char_None)

lemma Split_char_cons: "c \<notin> set a \<Longrightarrow> Split (a @ c # b) [c] = a # Split b [c]"
  by (subst Split.simps) (simp add: Index_char_first)

lemma length_Split_char: "length (Split s [c]) = Suc (count_list s c)"
proof (induction s rule: length_induct)
  case (1 s)
  show ?case
  proof (cases "c \<in> set s")
    case False
    then show ?thesis by (simp add: Split_char_none)
  next
    case True
    then obtain a b where s: "s = a @ c # b" and a: "c \<notin> set a"
      by (auto dest: split_list_first)
    from s have "length b < length s" by simp
    with 1 have "length (Split b [c]) = Suc (count_list b c)" by blast
    with s a show ?thesis by (simp add: Split_char_cons)
  qed
qed

lemma Split_two_fields:
  assumes "length (Split s [c]) = 2"
  shows "Split s [c] = [takeWhile (\<lambda>x. x \<noteq> c) s, drop (Suc (length (takeWhile (\<lambda>x. x \<noteq> c) s))) s]"
    and "s = takeWhile (\<lambda>x. x \<noteq> c) s @ c # drop (Suc (length (takeWhile (\<lambda>x. x \<noteq> c) s))) s"
    and "c \<notin> set (drop (Suc (length (takeWhile (\<lambda>x. x \<noteq> c) s))) s)"
proof -
  from assms have cnt: "count_list s c = 1" by (simp add: length_Split_char)
  then have "c \<in> set s" by (metis count_notin zero_neq_one)
  then obtain a b where s: "s = a @ c # b" and a: "c \<notin> set a"
    by (auto dest: split_list_first)
  from cnt s a have b: "c \<notin> set b" by (simp add: count_list_0_iff)
  from a have tw: "takeWhile (\<lambda>x. x \<noteq> c) s = a"
    unfolding s by (subst takeWhile_append2) auto
  show "Split s [c] = [takeWhile (\<lambda>x. x \<noteq> c) s, drop (Suc (length (takeWhile (\<lambda>x. x \<noteq> c) s))) s]"
    unfolding tw using a b by (simp add: s Split_char_cons Split_char_none)
  show "s = takeWhile (\<lambda>x. x \<noteq> c) s @ c # drop (Suc (length (takeWhile (\<lambda>x. x \<noteq> c) s))) s"
    unfolding tw by (simp add: s)
  show "c \<notin> set (drop (Suc (length (takeWhile (\<lambda>x. x \<noteq> c) s))) s)"
    unfolding tw using b by (simp add: s)
qed

text \<open>The same, one character of the string at a time.\<close>

lemma Split_char_nonempty: "Split s [c] \<noteq> []"
  using length_Split_char [of s c] by auto

lemma Split_char_Nil: "Split [] [c] = [[]]"
  by (simp add: Split_char_none)

lemma Split_char_Cons:
  "Split (x # xs) [c] =
     (if x = c then [] # Split xs [c]
      else (x # hd (Split xs [c])) # tl (Split xs [c]))"
proof (cases "x = c")
  case True
  then show ?thesis using Split_char_cons [of c "[]" xs] by simp
next
  case False
  show ?thesis
  proof (cases "c \<in> set xs")
    case False
    with \<open>x \<noteq> c\<close> show ?thesis by (simp add: Split_char_none)
  next
    case True
    then obtain a b where xs: "xs = a @ c # b" and a: "c \<notin> set a"
      by (auto dest: split_list_first)
    from a \<open>x \<noteq> c\<close> have "Split ((x # a) @ c # b) [c] = (x # a) # Split b [c]"
      by (intro Split_char_cons) simp
    with a \<open>x \<noteq> c\<close> show ?thesis by (simp add: xs Split_char_cons)
  qed
qed

text \<open>Joining lines with a character that none of them has, and splitting again.\<close>

lemma Join_Cons: "lines \<noteq> [] \<Longrightarrow> Join (line # lines) sep = line @ sep @ Join lines sep"
  by (cases lines) simp_all

lemma Split_Join:
  "lines \<noteq> [] \<Longrightarrow> \<forall>line \<in> set lines. c \<notin> set line \<Longrightarrow> Split (Join lines [c]) [c] = lines"
proof (induction lines)
  case Nil
  then show ?case by simp
next
  case (Cons line lines)
  show ?case
  proof (cases "lines = []")
    case True
    with Cons.prems show ?thesis by (simp add: Split_char_none)
  next
    case False
    with Cons have "Split (Join lines [c]) [c] = lines" by simp
    with False Cons.prems show ?thesis by (simp add: Join_Cons Split_char_cons)
  qed
qed

text \<open>
  \<open>Trim\<close> removes characters of the cut set only, and what it returns neither starts
  nor ends with one.
\<close>

lemma Trim_decompose:
  "\<exists>a b. s = a @ Trim s cutset @ b \<and> set a \<subseteq> set cutset \<and> set b \<subseteq> set cutset"
proof -
  let ?P = "\<lambda>c. c \<in> set cutset"
  let ?b = "rev (takeWhile ?P (rev s))"
  let ?a = "takeWhile ?P (TrimRight s cutset)"
  have "rev (dropWhile ?P (rev s)) @ rev (takeWhile ?P (rev s)) =
        rev (takeWhile ?P (rev s) @ dropWhile ?P (rev s))"
    by (simp only: rev_append)
  also have "\<dots> = s" by (simp only: takeWhile_dropWhile_id rev_rev_ident)
  finally have s: "s = TrimRight s cutset @ ?b" by (simp only: TrimRight_def)
  have "TrimRight s cutset = ?a @ Trim s cutset" by (simp add: Trim_def TrimLeft_def)
  with s have "s = ?a @ Trim s cutset @ ?b" by (metis append.assoc)
  moreover have "set ?a \<subseteq> set cutset" by (auto dest: set_takeWhileD)
  moreover have "set ?b \<subseteq> set cutset" by (auto dest: set_takeWhileD)
  ultimately show ?thesis by blast
qed

lemma Trim_ends:
  assumes "Trim s cutset \<noteq> []"
  shows "hd (Trim s cutset) \<notin> set cutset" and "last (Trim s cutset) \<notin> set cutset"
proof -
  let ?P = "\<lambda>c. c \<in> set cutset"
  from assms hd_dropWhile [of ?P "TrimRight s cutset"]
  show "hd (Trim s cutset) \<notin> set cutset"
    by (simp only: Trim_def TrimLeft_def) blast
  from assms have t: "TrimRight s cutset \<noteq> []" by (auto simp: Trim_def TrimLeft_def)
  then have d: "dropWhile ?P (rev s) \<noteq> []" by (simp add: TrimRight_def)
  have "last (Trim s cutset) = last (TrimRight s cutset)"
    using assms unfolding Trim_def TrimLeft_def
    by (metis last_appendR takeWhile_dropWhile_id)
  also have "\<dots> = hd (dropWhile ?P (rev s))" using d by (simp add: TrimRight_def last_rev)
  finally show "last (Trim s cutset) \<notin> set cutset"
    using hd_dropWhile [OF d] by simp
qed

text \<open>A string does not start with a prefix that has another first character.\<close>

lemma not_prefix_hd: "hd s \<noteq> hd pre \<Longrightarrow> pre \<noteq> [] \<Longrightarrow> \<not> prefix pre s"
  by (auto simp: prefix_def)

text \<open>A string that starts with \<open>name\<close> has its first occurrence of \<open>name\<close> at 0.\<close>

lemma Index_prefix: "Index (name @ rest) name = Some 0"
proof (cases "name @ rest")
  case Nil
  then show ?thesis by simp
next
  case (Cons a list)
  have "prefix name (name @ rest)" by simp
  with Cons show ?thesis by (simp add: HasPrefix_def)
qed

lemma Replace1_prefix: "Replace1 (name @ rest) name [] = rest"
  by (simp add: Replace1_def Index_prefix)

lemma Trim_hyphen_version:
  assumes "ver = [] \<or> (hd ver \<noteq> CHR ''-'' \<and> last ver \<noteq> CHR ''-'')"
  shows "Trim (CHR ''-'' # ver) ''-'' = ver"
proof (cases ver)
  case Nil
  then show ?thesis by (simp add: Trim_def TrimLeft_def TrimRight_def)
next
  case (Cons c cs)
  with assms have h: "c \<noteq> CHR ''-''" and l: "last ver \<noteq> CHR ''-''" by simp_all
  from Cons l have "dropWhile (\<lambda>c. c \<in> set ''-'') (rev (CHR ''-'' # ver)) = rev (CHR ''-'' # ver)"
    by (auto simp: dropWhile_eq_self_iff hd_append hd_rev split: if_splits)
  then have "TrimRight (CHR ''-'' # ver) ''-'' = CHR ''-'' # ver"
    by (simp only: TrimRight_def rev_rev_ident)
  with Cons h show ?thesis by (simp add: Trim_def TrimLeft_def)
qed

section \<open>Facts about the loops\<close>

text \<open>
  The epoch removal returns the second part of the split at the colons only when there
  are exactly two parts, that is, exactly one colon.
\<close>

lemma removeEpoch_char:
  "removeEpochFromPkgVersion pkgVer =
     (if count_list pkgVer (CHR '':'') = 1 then stripThroughFirstColon pkgVer else pkgVer)"
proof (cases "count_list pkgVer (CHR '':'') = 1")
  case True
  then have len: "length (Split pkgVer '':'') = 2" by (simp add: length_Split_char)
  from True have mem: "CHR '':'' \<in> set pkgVer" by (metis count_notin zero_neq_one)
  have "dropWhile (\<lambda>c. c \<noteq> CHR '':'') pkgVer =
          drop (length (takeWhile (\<lambda>c. c \<noteq> CHR '':'') pkgVer)) pkgVer"
    by (rule dropWhile_eq_drop)
  then have "stripThroughFirstColon pkgVer =
          drop (Suc (length (takeWhile (\<lambda>c. c \<noteq> CHR '':'') pkgVer))) pkgVer"
    using mem by (simp add: stripThroughFirstColon_def tl_drop drop_Suc)
  with Split_two_fields(1) [OF len] len mem True show ?thesis
    by (simp add: removeEpochFromPkgVersion_def Contains_char)
next
  case False
  then have "length (Split pkgVer '':'') \<noteq> 2" by (simp add: length_Split_char)
  with False show ?thesis by (simp add: removeEpochFromPkgVersion_def)
qed

text \<open>The loop of the kernel filter keeps the packages that do not reach a \<^verbatim>\<open>continue\<close>.\<close>

lemma removeLoop_filter:
  "removeLoop manager activeKernel pkgs newManifest =
     newManifest\<lparr>OsPkgInfoList := OsPkgInfoList newManifest @
        filter (\<lambda>pkg. \<not> inactiveKernelPkg manager activeKernel pkg) pkgs\<rparr>"
  by (induction pkgs arbitrary: newManifest) simp_all

lemma removeInactive_detected:
  "detectActiveKernel h = (activeKernel, True) \<Longrightarrow>
   removeInactivePackagesFromManifest h manifest manager =
     \<lparr>OsPkgInfoList = filter (\<lambda>pkg. \<not> inactiveKernelPkg manager activeKernel pkg)
        (OsPkgInfoList manifest)\<rparr>"
  by (simp add: removeInactivePackagesFromManifest_def removeLoop_filter)

lemma removeInactive_undetected:
  "snd (detectActiveKernel h) = False \<Longrightarrow>
   removeInactivePackagesFromManifest h manifest manager = manifest"
  by (cases "detectActiveKernel h") (simp add: removeInactivePackagesFromManifest_def)

text \<open>
  What the filter does under \<^verbatim>\<open>dpkg-query\<close>: the test for a kernel package is
  \<^verbatim>\<open>strings.Contains\<close>, the version is what \<^verbatim>\<open>strings.TrimPrefix\<close> leaves.
\<close>

lemma dpkg_filter:
  assumes "detectActiveKernel h = (activeKernel, True)"
  shows "OsPkgInfoList (removeInactivePackagesFromManifest h manifest ''dpkg-query'') =
           filter (\<lambda>pkg. \<not> (sublist ''linux-image-'' (Pkg pkg) \<and>
                               \<not> sublist (TrimPrefix (Pkg pkg) ''linux-image-'') activeKernel))
             (OsPkgInfoList manifest)"
proof -
  have "(\<lambda>pkg. \<not> inactiveKernelPkg ''dpkg-query'' activeKernel pkg) =
        (\<lambda>pkg. \<not> (sublist ''linux-image-'' (Pkg pkg) \<and>
                        \<not> sublist (TrimPrefix (Pkg pkg) ''linux-image-'') activeKernel))"
    by (auto simp: inactiveKernelPkg_def Contains_sublist Let_def)
  with assms show ?thesis
    by (simp add: removeInactive_detected)
qed

text \<open>The loop of the detection is \<open>find\<close> on the list of managers.\<close>

lemma detectLoop_find: "detectLoop h managers = find (checkPackageManager h) managers"
  by (induction managers) simp_all

text \<open>The loop of the parser appends one record for each line of two fields.\<close>

lemma parseLoop_map_filter:
  "parseLoop osInfo pkgs manifest =
     manifest\<lparr>OsPkgInfoList := OsPkgInfoList manifest @
        map (\<lambda>pkg. \<lparr>Os = Name osInfo, OsVer = Version osInfo,
                     Pkg = Split pkg '','' ! 0, PkgVer = Split pkg '','' ! 1\<rparr>)
          (filter (\<lambda>pkg. length (Split pkg '','') = 2) pkgs)\<rparr>"
  by (induction pkgs arbitrary: manifest) (simp_all add: Let_def)

text \<open>
  When every line of the content is shorter than \<^verbatim>\<open>MaxScanTokenSize\<close>, the scanner
  returns all of them: the parts between the newlines, without a last empty part and
  without a carriage return at the end. A line that fills the buffer ends the scan.
\<close>

lemma scanLinesFrom_Split:
  assumes "Split s NL = p # ps"
    and "\<forall>line \<in> set ((cur @ p) # ps). length line < MaxScanTokenSize"
  shows "scanLinesFrom cur s =
           map dropCR (if last ((cur @ p) # ps) = [] then butlast ((cur @ p) # ps)
                       else (cur @ p) # ps)"
  using assms
proof (induction s arbitrary: cur p ps)
  case Nil
  then show ?case by (auto simp: NL_def Split_char_Nil)
next
  case (Cons c cs)
  obtain q qs where cs: "Split cs NL = q # qs"
    using Split_char_nonempty [of cs "CHR 0x0A"] by (cases "Split cs NL") (auto simp: NL_def)
  show ?case
  proof (cases "c = CHR 0x0A")
    case True
    with cs Cons.prems(1) have p: "p = []" "ps = q # qs"
      by (simp_all add: NL_def Split_char_Cons)
    with Cons.prems(2) have "\<forall>line \<in> set (([] @ q) # qs). length line < MaxScanTokenSize"
      by simp
    from Cons.IH [OF cs this] True show ?thesis
      by (simp add: p)
  next
    case False
    with cs Cons.prems(1) have p: "p = c # q" "ps = qs"
      by (simp_all add: NL_def Split_char_Cons)
    with Cons.prems(2) have short: "length (cur @ c # q) < MaxScanTokenSize"
      and all: "\<forall>line \<in> set (((cur @ [c]) @ q) # qs). length line < MaxScanTokenSize"
      by simp_all
    from short have "\<not> MaxScanTokenSize \<le> length (cur @ [c])" by simp
    with Cons.IH [OF cs all] False show ?thesis
      by (simp add: p)
  qed
qed

lemma scanLines_all_lines:
  assumes "\<forall>line \<in> set (Split content NL). length line < MaxScanTokenSize"
  shows "scanLines content =
           map dropCR (if last (Split content NL) = [] then butlast (Split content NL)
                       else Split content NL)"
proof -
  obtain p ps where sp: "Split content NL = p # ps"
    using Split_char_nonempty [of content "CHR 0x0A"]
    by (cases "Split content NL") (auto simp: NL_def)
  with assms have "\<forall>line \<in> set (([] @ p) # ps). length line < MaxScanTokenSize" by simp
  from scanLinesFrom_Split [OF sp this] show ?thesis
    by (simp add: scanLines_def sp)
qed

lemma scanLinesFrom_too_long:
  "CHR 0x0A \<notin> set xs \<Longrightarrow> length cur < MaxScanTokenSize \<Longrightarrow>
   MaxScanTokenSize \<le> length cur + length xs \<Longrightarrow>
   scanLinesFrom cur (xs @ rest) = []"
proof (induction xs arbitrary: cur)
  case Nil
  then show ?case by simp
next
  case (Cons c cs)
  show ?case
  proof (cases "MaxScanTokenSize \<le> length (cur @ [c])")
    case True
    with Cons.prems show ?thesis by auto
  next
    case False
    with Cons.prems have "scanLinesFrom (cur @ [c]) (cs @ rest) = []"
      by (intro Cons.IH) simp_all
    with False Cons.prems show ?thesis by auto
  qed
qed

lemma scanLines_longLine: "scanLines (longLine @ rest) = []"
  unfolding scanLines_def
  by (rule scanLinesFrom_too_long) (simp_all add: longLine_def MaxScanTokenSize_def)

text \<open>
  The scanner's lines have no newline, so that on them the two patterns match exactly the
  lines that start with the key.
\<close>

lemma dropCR_set: "set (dropCR data) \<subseteq> set data"
  by (auto simp: dropCR_def dest: in_set_butlastD)

lemma scanLinesFrom_no_newline:
  "CHR 0x0A \<notin> set cur \<Longrightarrow> line \<in> set (scanLinesFrom cur cs) \<Longrightarrow> CHR 0x0A \<notin> set line"
proof (induction cs arbitrary: cur)
  case Nil
  then show ?case using dropCR_set [of cur] by (auto split: if_splits)
next
  case (Cons c cs)
  show ?case
  proof (cases "c = CHR 0x0A")
    case True
    with Cons.prems(2) have "line = dropCR cur \<or> line \<in> set (scanLinesFrom [] cs)" by simp
    then show ?thesis
    proof
      assume "line = dropCR cur"
      with Cons.prems(1) dropCR_set [of cur] show ?thesis by auto
    next
      assume "line \<in> set (scanLinesFrom [] cs)"
      with Cons.IH [of "[]"] show ?thesis by simp
    qed
  next
    case False
    with Cons.prems have "CHR 0x0A \<notin> set (cur @ [c])" "line \<in> set (scanLinesFrom (cur @ [c]) cs)"
      by (simp_all split: if_splits)
    then show ?thesis by (rule Cons.IH)
  qed
qed

lemma scanLines_no_newline: "line \<in> set (scanLines content) \<Longrightarrow> CHR 0x0A \<notin> set line"
  unfolding scanLines_def by (rule scanLinesFrom_no_newline [of "[]"]) simp_all

lemma FindStringSubmatch_line:
  "CHR 0x0A \<notin> set line \<Longrightarrow>
   FindStringSubmatch key line =
     (if prefix key line then Some [line, drop (length key) line] else None)"
  by (auto simp: FindStringSubmatch_def HasPrefix_def dest: in_set_dropD)

lemma releaseValue_Cons:
  "releaseValue dflt key (line # lines) =
     (if prefix key line then releaseValue (Trim (drop (length key) line) DQUOTE) key lines
      else releaseValue dflt key lines)"
  by (cases "filter (\<lambda>line. prefix key line) lines")
     (simp_all add: releaseValue_def)

lemma not_both_keys: "prefix ''ID='' line \<Longrightarrow> \<not> prefix ''VERSION_ID='' line"
  by (cases line) (auto simp: prefix_def)

lemma scanOSRelease_values:
  "\<forall>line \<in> set lines. CHR 0x0A \<notin> set line \<Longrightarrow>
   scanOSRelease lines osInfo =
     \<lparr>Name = releaseValue (Name osInfo) ''ID='' lines,
      Version = releaseValue (Version osInfo) ''VERSION_ID='' lines\<rparr>"
proof (induction lines arbitrary: osInfo)
  case Nil
  then show ?case by (simp add: releaseValue_def)
next
  case (Cons line lines)
  then have nl: "CHR 0x0A \<notin> set line" and rest: "\<forall>line \<in> set lines. CHR 0x0A \<notin> set line"
    by simp_all
  note IH = Cons.IH [OF rest]
  consider (name) "prefix ''ID='' line" | (version) "\<not> prefix ''ID='' line" "prefix ''VERSION_ID='' line"
    | (neither) "\<not> prefix ''ID='' line" "\<not> prefix ''VERSION_ID='' line" by blast
  then show ?case
  proof cases
    case name
    then have "\<not> prefix ''VERSION_ID='' line" by (rule not_both_keys)
    with name nl show ?thesis
      by (simp add: rexNameFromID_def FindStringSubmatch_line IH releaseValue_Cons)
  next
    case version
    with nl show ?thesis
      by (simp add: rexNameFromID_def rexVersionID_def FindStringSubmatch_line IH releaseValue_Cons)
  next
    case neither
    with nl show ?thesis
      by (simp add: rexNameFromID_def rexVersionID_def FindStringSubmatch_line IH releaseValue_Cons)
  qed
qed

lemma releaseValue_filter:
  assumes "\<And>line. prefix key line \<Longrightarrow> keep line"
  shows "releaseValue dflt key (filter keep lines) = releaseValue dflt key lines"
proof -
  have "filter (\<lambda>line. prefix key line) (filter keep lines) =
        filter (\<lambda>line. prefix key line) lines"
    using assms by (induction lines) auto
  then show ?thesis by (simp add: releaseValue_def)
qed

text \<open>
  The loop of the \<^verbatim>\<open>apk\<close> case: within the bounds of \<open>apkInfoArray\<close> it appends one
  line for each position, and it panics at the first index beyond them.
\<close>

lemma apkLoop_in_bounds:
  "i + length pkgs \<le> length apkInfoArray \<Longrightarrow>
   apkLoop apkInfoArray i pkgs mq =
     Inr (mq @ map (\<lambda>k. apkInfoArray ! (i + k) @ '','' @
                          Trim (Replace1 (pkgs ! k) (apkInfoArray ! (i + k)) []) ''-'')
                 [0..<length pkgs])"
proof (induction pkgs arbitrary: i mq)
  case Nil
  then show ?case by simp
next
  case (Cons pkg rest)
  then have i: "i < length apkInfoArray" and r: "Suc i + length rest \<le> length apkInfoArray"
    by simp_all
  have "[0..<length (pkg # rest)] = 0 # map Suc [0..<length rest]"
    by (simp add: upt_conv_Cons map_Suc_upt del: upt_Suc)
  with i Cons.IH [OF r] show ?case
    by (simp add: comp_def del: upt_Suc)
qed

lemma apkLoop_out_of_bounds:
  "i \<le> length apkInfoArray \<Longrightarrow> length apkInfoArray < i + length pkgs \<Longrightarrow>
   apkLoop apkInfoArray i pkgs mq =
     Inl (PanicIndexOutOfRange (length apkInfoArray) (length apkInfoArray))"
proof (induction pkgs arbitrary: i mq)
  case Nil
  then show ?case by simp
next
  case (Cons pkg rest)
  show ?case
  proof (cases "i < length apkInfoArray")
    case True
    with Cons.prems have "Suc i \<le> length apkInfoArray" "length apkInfoArray < Suc i + length rest"
      by simp_all
    with True Cons.IH show ?thesis by simp
  next
    case False
    with Cons.prems have "i = length apkInfoArray" by simp
    then show ?thesis by simp
  qed
qed

lemma apkLoop_map2:
  assumes "length pkgs \<le> length apkInfoArray"
  shows "apkLoop apkInfoArray 0 pkgs [] =
           Inr (map2 (\<lambda>name pkg. name @ '','' @ Trim (Replace1 pkg name []) ''-'')
                  apkInfoArray pkgs)"
proof -
  from assms have "apkLoop apkInfoArray 0 pkgs [] =
      Inr ([] @ map (\<lambda>k. apkInfoArray ! (0 + k) @ '','' @
                          Trim (Replace1 (pkgs ! k) (apkInfoArray ! (0 + k)) []) ''-'')
                 [0..<length pkgs])"
    by (intro apkLoop_in_bounds) simp
  also have "[] @ map (\<lambda>k. apkInfoArray ! (0 + k) @ '','' @
                          Trim (Replace1 (pkgs ! k) (apkInfoArray ! (0 + k)) []) ''-'')
                 [0..<length pkgs] =
             map2 (\<lambda>name pkg. name @ '','' @ Trim (Replace1 pkg name []) ''-'')
                  apkInfoArray pkgs"
    using assms by (intro nth_equalityI) simp_all
  finally show ?thesis .
qed

lemma queryPackageManager_apk:
  assumes "apk_info h = Inr apkInfo" and "apk_info_v h = Inr apkInfoWithVersion"
  shows "queryPackageManager h ''apk'' =
           (case apkLoop (Split (TrimSuffix apkInfo NL) NL) 0
                   (Split (TrimSuffix apkInfoWithVersion NL) NL) [] of
              Inl panic \<Rightarrow> Inl panic
            | Inr mq \<Rightarrow> Inr (Join mq NL))"
  using assms by (simp add: queryPackageManager_def)

section \<open>The kernel filter\<close>

text \<open>
  C1. Under \<^verbatim>\<open>rpm\<close>, with the active kernel detected, the filter removes exactly the
  records whose package name is \<^verbatim>\<open>kernel\<close> and whose version is not a substring of the
  active kernel string, where the version is taken without everything up to and
  including its colon when it has exactly one colon, and as it is when it has no colon
  or more than one; all other records are in the result, unchanged and in their original
  order.
\<close>

theorem rpm_filter_exact:
  assumes "detectActiveKernel h = (activeKernel, True)"
  shows "OsPkgInfoList (removeInactivePackagesFromManifest h manifest ''rpm'') =
           filter (\<lambda>pkg. \<not> (Pkg pkg = ''kernel'' \<and>
                     \<not> sublist (if count_list (PkgVer pkg) (CHR '':'') = 1
                                then stripThroughFirstColon (PkgVer pkg)
                                else PkgVer pkg) activeKernel))
             (OsPkgInfoList manifest)"
  using assms
  by (simp add: removeInactive_detected inactiveKernelPkg_def Contains_sublist
        removeEpoch_char)

theorem rpm_filter_exact_witness:
  "detectActiveKernel centosHost = (''4.18.0-147.el8.x86_64'', True) \<and>
   OsPkgInfoList (removeInactivePackagesFromManifest centosHost rpmManifest ''rpm'') =
     [\<lparr>Os = ''centos'', OsVer = ''8'', Pkg = ''bash'', PkgVer = ''0:4.4.19-7.el8''\<rparr>,
      \<lparr>Os = ''centos'', OsVer = ''8'', Pkg = ''kernel'', PkgVer = ''0:4.18.0-147.el8''\<rparr>,
      \<lparr>Os = ''centos'', OsVer = ''8'', Pkg = ''kernel-core'', PkgVer = ''0:4.18.0-80.el8''\<rparr>]"
proof -
  have h: "detectActiveKernel centosHost = (''4.18.0-147.el8.x86_64'', True)"
    by code_simp
  have e: "filter (\<lambda>pkg. \<not> (Pkg pkg = ''kernel'' \<and>
                     \<not> sublist (if count_list (PkgVer pkg) (CHR '':'') = 1
                                then stripThroughFirstColon (PkgVer pkg)
                                else PkgVer pkg) ''4.18.0-147.el8.x86_64''))
            (OsPkgInfoList rpmManifest) =
     [\<lparr>Os = ''centos'', OsVer = ''8'', Pkg = ''bash'', PkgVer = ''0:4.4.19-7.el8''\<rparr>,
      \<lparr>Os = ''centos'', OsVer = ''8'', Pkg = ''kernel'', PkgVer = ''0:4.18.0-147.el8''\<rparr>,
      \<lparr>Os = ''centos'', OsVer = ''8'', Pkg = ''kernel-core'', PkgVer = ''0:4.18.0-80.el8''\<rparr>]"
    by code_simp
  from rpm_filter_exact [OF h, of rpmManifest] e h show ?thesis by simp
qed

text \<open>
  A kernel record with the version \<^verbatim>\<open>1:2:3\<close>, with the kernel \<^verbatim>\<open>2:3\<close> running: the
  code compares the whole version and removes the record, whereas the version without
  the text through its first colon, \<^verbatim>\<open>2:3\<close>, is a substring of the kernel string, so
  that the record would stay.
\<close>

theorem rpm_two_colons_counterexample:
  "detectActiveKernel (centosHost\<lparr>uname_r := Inr (''2:3'' @ NL)\<rparr>) = (''2:3'', True) \<and>
   OsPkgInfoList (removeInactivePackagesFromManifest
      (centosHost\<lparr>uname_r := Inr (''2:3'' @ NL)\<rparr>)
      \<lparr>OsPkgInfoList =
         [\<lparr>Os = ''centos'', OsVer = ''8'', Pkg = ''kernel'', PkgVer = ''1:2:3''\<rparr>]\<rparr> ''rpm'') = [] \<and>
   filter (\<lambda>pkg. \<not> (Pkg pkg = ''kernel'' \<and>
                     \<not> sublist (stripThroughFirstColon (PkgVer pkg)) ''2:3''))
     [\<lparr>Os = ''centos'', OsVer = ''8'', Pkg = ''kernel'', PkgVer = ''1:2:3''\<rparr>] =
     [\<lparr>Os = ''centos'', OsVer = ''8'', Pkg = ''kernel'', PkgVer = ''1:2:3''\<rparr>]"
  by code_simp

text \<open>
  C2. Under \<^verbatim>\<open>dpkg-query\<close> a record whose name does not start with
  \<^verbatim>\<open>linux-image-\<close> is removed all the same when the name has \<^verbatim>\<open>linux-image-\<close>
  further inside: the test is \<^verbatim>\<open>strings.Contains\<close>, \<^verbatim>\<open>strings.TrimPrefix\<close> then
  leaves the whole name as the kernel version, and no kernel string contains it. On the
  Debian host the record \<^verbatim>\<open>acme-linux-image-tools\<close> is dropped and \<^verbatim>\<open>curl\<close> is kept.
\<close>

theorem dpkg_removes_non_prefix_name:
  "\<not> HasPrefix ''acme-linux-image-tools'' ''linux-image-'' \<and>
   detectActiveKernel debianHost = (''5.10.0-2-amd64'', True) \<and>
   OsPkgInfoList (removeInactivePackagesFromManifest debianHost
      \<lparr>OsPkgInfoList =
         [\<lparr>Os = ''debian'', OsVer = ''11'', Pkg = ''acme-linux-image-tools'', PkgVer = ''1.0''\<rparr>,
          \<lparr>Os = ''debian'', OsVer = ''11'', Pkg = ''curl'', PkgVer = ''7.74.0-1.3''\<rparr>]\<rparr>
      ''dpkg-query'') =
     [\<lparr>Os = ''debian'', OsVer = ''11'', Pkg = ''curl'', PkgVer = ''7.74.0-1.3''\<rparr>]"
  by code_simp

text \<open>
  C3. \<open>removeEpochFromPkgVersion\<close> strips everything up to and including the colon
  from a version with exactly one colon, and returns every other version as it is: one
  with no colon, and also one with two colons or more, because the function returns the
  second part only when the split at the colons has exactly two parts.
\<close>

theorem removeEpoch_exactly_one_colon:
  "removeEpochFromPkgVersion pkgVer =
     (if count_list pkgVer (CHR '':'') = 1 then stripThroughFirstColon pkgVer else pkgVer)"
  by (rule removeEpoch_char)

theorem removeEpoch_exactly_one_colon_witness:
  "removeEpochFromPkgVersion ''0:4.18.0-80.el8'' = ''4.18.0-80.el8'' \<and>
   removeEpochFromPkgVersion ''4.18.0-80.el8'' = ''4.18.0-80.el8'' \<and>
   removeEpochFromPkgVersion ''1:2:3'' = ''1:2:3''"
proof -
  have a: "(if count_list ''0:4.18.0-80.el8'' (CHR '':'') = 1
            then stripThroughFirstColon ''0:4.18.0-80.el8'' else ''0:4.18.0-80.el8'') = ''4.18.0-80.el8''"
    by code_simp
  have b: "(if count_list ''4.18.0-80.el8'' (CHR '':'') = 1
            then stripThroughFirstColon ''4.18.0-80.el8'' else ''4.18.0-80.el8'') = ''4.18.0-80.el8''"
    by code_simp
  have c: "(if count_list ''1:2:3'' (CHR '':'') = 1
            then stripThroughFirstColon ''1:2:3'' else ''1:2:3'') = ''1:2:3''"
    by code_simp
  from a b c show ?thesis
    by (simp only: removeEpoch_exactly_one_colon [of "''0:4.18.0-80.el8''"]
          removeEpoch_exactly_one_colon [of "''4.18.0-80.el8''"]
          removeEpoch_exactly_one_colon [of "''1:2:3''"] simp_thms)
qed

text \<open>
  With two colons the version stays as it is, whereas stripping through the first colon
  would leave \<^verbatim>\<open>2:3\<close>.
\<close>

theorem removeEpoch_two_colons_counterexample:
  "removeEpochFromPkgVersion ''1:2:3'' = ''1:2:3'' \<and>
   stripThroughFirstColon ''1:2:3'' = ''2:3'' \<and>
   removeEpochFromPkgVersion ''1:2:3'' \<noteq> stripThroughFirstColon ''1:2:3''"
  by code_simp

text \<open>
  C4. Filtering is idempotent: for every host (so for one and the same result of the
  kernel detection), every manifest and every manager, filtering a filtered manifest
  again returns it unchanged.
\<close>

theorem filter_idempotent:
  "removeInactivePackagesFromManifest h
     (removeInactivePackagesFromManifest h manifest manager) manager =
   removeInactivePackagesFromManifest h manifest manager"
proof (cases "detectActiveKernel h")
  case (Pair activeKernel detected)
  show ?thesis
  proof (cases detected)
    case True
    with Pair have d: "detectActiveKernel h = (activeKernel, True)" by simp
    show ?thesis by (simp add: removeInactive_detected [OF d])
  next
    case False
    with Pair have "snd (detectActiveKernel h) = False" by simp
    then show ?thesis by (simp add: removeInactive_undetected)
  qed
qed

theorem filter_idempotent_witness:
  "removeInactivePackagesFromManifest centosHost
     (removeInactivePackagesFromManifest centosHost rpmManifest ''rpm'') ''rpm'' =
   removeInactivePackagesFromManifest centosHost rpmManifest ''rpm'' \<and>
   length (OsPkgInfoList (removeInactivePackagesFromManifest centosHost rpmManifest ''rpm'')) = 3"
proof -
  have "length (OsPkgInfoList (removeInactivePackagesFromManifest centosHost rpmManifest ''rpm'')) = 3"
    by code_simp
  with filter_idempotent [of centosHost rpmManifest "''rpm''"] show ?thesis by simp
qed

text \<open>
  C5. When \<^verbatim>\<open>uname -r\<close> fails, the filter returns the manifest it was given, for every
  manager, and \<open>GeneratePackageManifest\<close> returns what the enumeration returned: its
  error if it had one, and otherwise the parsed manifest, with no error added.
\<close>

theorem kernel_detection_failure_skips_filter:
  assumes "uname_r h = Inl err"
  shows "removeInactivePackagesFromManifest h manifest manager = manifest \<and>
         GeneratePackageManifest h =
           (case enumeratePackages h of
              Inl e \<Rightarrow> Inl e
            | Inr (parsed, detected) \<Rightarrow> Inr parsed)"
proof -
  from assms have "snd (detectActiveKernel h) = False"
    by (simp add: detectActiveKernel_def)
  then have *: "\<And>m mgr. removeInactivePackagesFromManifest h m mgr = m"
    by (rule removeInactive_undetected)
  show ?thesis
    by (simp add: * GeneratePackageManifest_def split: sum.splits prod.splits)
qed

theorem kernel_detection_failure_skips_filter_witness:
  "uname_r (debianHost\<lparr>uname_r := Inl (ErrorMsg ''exit status 1'')\<rparr>) =
     Inl (ErrorMsg ''exit status 1'') \<and>
   GeneratePackageManifest (debianHost\<lparr>uname_r := Inl (ErrorMsg ''exit status 1'')\<rparr>) =
     Inr \<lparr>OsPkgInfoList =
        [\<lparr>Os = ''debian'', OsVer = ''11'', Pkg = ''linux-image-5.10.0-1-amd64'', PkgVer = ''5.10.0-1''\<rparr>,
         \<lparr>Os = ''debian'', OsVer = ''11'', Pkg = ''linux-image-5.10.0-2-amd64'', PkgVer = ''5.10.0-2''\<rparr>,
         \<lparr>Os = ''debian'', OsVer = ''11'', Pkg = ''curl'', PkgVer = ''7.74.0-1.3''\<rparr>]\<rparr>"
proof -
  let ?h = "debianHost\<lparr>uname_r := Inl (ErrorMsg ''exit status 1'')\<rparr>"
  have u: "uname_r ?h = Inl (ErrorMsg ''exit status 1'')" by simp
  have e: "(case enumeratePackages ?h of Inl e \<Rightarrow> Inl e | Inr (parsed, detected) \<Rightarrow> Inr parsed) =
     Inr \<lparr>OsPkgInfoList =
        [\<lparr>Os = ''debian'', OsVer = ''11'', Pkg = ''linux-image-5.10.0-1-amd64'', PkgVer = ''5.10.0-1''\<rparr>,
         \<lparr>Os = ''debian'', OsVer = ''11'', Pkg = ''linux-image-5.10.0-2-amd64'', PkgVer = ''5.10.0-2''\<rparr>,
         \<lparr>Os = ''debian'', OsVer = ''11'', Pkg = ''curl'', PkgVer = ''7.74.0-1.3''\<rparr>]\<rparr>"
    by code_simp
  from kernel_detection_failure_skips_filter [OF u] e u show ?thesis by simp
qed

section \<open>The detection of the package manager\<close>

text \<open>
  C6. Whatever the presence checks answer, the detection returns \<^verbatim>\<open>dpkg-query\<close> when
  its check succeeds (also when the check of \<^verbatim>\<open>rpm\<close> succeeds too), \<^verbatim>\<open>rpm\<close> when only
  that check succeeds, and otherwise the error whose message lists the managers that were
  tried.
\<close>

theorem detect_first_present:
  "DetectPackageManager h =
     (if checkPackageManager h ''dpkg-query'' then Inr ''dpkg-query''
      else if checkPackageManager h ''rpm'' then Inr ''rpm''
      else Inl (ErrorMsg
        ''unable to find supported package managers. Supported package managers are dpkg-query, rpm.''))"
  by (simp add: DetectPackageManager_def SupportedPackageManagers_def)

theorem detect_first_present_witness:
  "DetectPackageManager (debianHost\<lparr>which := (\<lambda>manager. Finished 0)\<rparr>) = Inr ''dpkg-query'' \<and>
   DetectPackageManager (debianHost\<lparr>which := (\<lambda>manager. if manager = ''rpm'' then Finished 0 else ExitError 1)\<rparr>) = Inr ''rpm'' \<and>
   DetectPackageManager (debianHost\<lparr>which := (\<lambda>manager. ExitError 1)\<rparr>) =
     Inl (ErrorMsg
        ''unable to find supported package managers. Supported package managers are dpkg-query, rpm.'')"
proof -
  let ?both = "debianHost\<lparr>which := (\<lambda>manager. Finished 0)\<rparr>"
  let ?rpm = "debianHost\<lparr>which := (\<lambda>manager. if manager = ''rpm'' then Finished 0 else ExitError 1)\<rparr>"
  let ?none = "debianHost\<lparr>which := (\<lambda>manager. ExitError 1)\<rparr>"
  have a: "checkPackageManager ?both ''dpkg-query''"
    by (simp add: checkPackageManager_def)
  have b: "\<not> checkPackageManager ?rpm ''dpkg-query''" "checkPackageManager ?rpm ''rpm''"
    by (simp_all add: checkPackageManager_def)
  have c: "\<not> checkPackageManager ?none ''dpkg-query''" "\<not> checkPackageManager ?none ''rpm''"
    by (simp_all add: checkPackageManager_def)
  from a b c show ?thesis
    by (simp only: detect_first_present [of ?both] detect_first_present [of ?rpm]
          detect_first_present [of ?none] if_True if_False simp_thms)
qed

section \<open>The parser of the package manager's output\<close>

text \<open>
  C7. The records of the parsed manifest are, in order, those of the lines that split
  into exactly two fields at their commas, each with the two fields of its line; every
  other line gives no record and stops nothing. Whatever the output is, once the release
  file, the detection and the query have succeeded, the generation succeeds.
\<close>

theorem malformed_lines_skipped:
  "OsPkgInfoList (parseManagerQuery osInfo managerQuery) =
     map (\<lambda>pkg. \<lparr>Os = Name osInfo, OsVer = Version osInfo,
                  Pkg = takeWhile (\<lambda>c. c \<noteq> CHR '','') pkg,
                  PkgVer = drop (Suc (length (takeWhile (\<lambda>c. c \<noteq> CHR '','') pkg))) pkg\<rparr>)
       (filter (\<lambda>pkg. length (Split pkg '','') = 2) (Split (TrimSuffix managerQuery NL) NL)) \<and>
   (GetOSInfo h = Inr osInfo \<and> DetectPackageManager h = Inr manager \<and>
    queryPackageManager h manager = Inr managerQuery \<longrightarrow>
    GeneratePackageManifest h =
      Inr (removeInactivePackagesFromManifest h (parseManagerQuery osInfo managerQuery) manager))"
proof
  have "map (\<lambda>pkg. \<lparr>Os = Name osInfo, OsVer = Version osInfo,
                     Pkg = Split pkg '','' ! 0, PkgVer = Split pkg '','' ! 1\<rparr>)
          (filter (\<lambda>pkg. length (Split pkg '','') = 2) pkgs) =
        map (\<lambda>pkg. \<lparr>Os = Name osInfo, OsVer = Version osInfo,
                  Pkg = takeWhile (\<lambda>c. c \<noteq> CHR '','') pkg,
                  PkgVer = drop (Suc (length (takeWhile (\<lambda>c. c \<noteq> CHR '','') pkg))) pkg\<rparr>)
          (filter (\<lambda>pkg. length (Split pkg '','') = 2) pkgs)" for pkgs
    by (rule map_cong [OF refl]) (simp add: Split_two_fields(1))
  then show "OsPkgInfoList (parseManagerQuery osInfo managerQuery) =
     map (\<lambda>pkg. \<lparr>Os = Name osInfo, OsVer = Version osInfo,
                  Pkg = takeWhile (\<lambda>c. c \<noteq> CHR '','') pkg,
                  PkgVer = drop (Suc (length (takeWhile (\<lambda>c. c \<noteq> CHR '','') pkg))) pkg\<rparr>)
       (filter (\<lambda>pkg. length (Split pkg '','') = 2) (Split (TrimSuffix managerQuery NL) NL))"
    by (simp add: parseManagerQuery_def parseLoop_map_filter)
next
  show "GetOSInfo h = Inr osInfo \<and> DetectPackageManager h = Inr manager \<and>
    queryPackageManager h manager = Inr managerQuery \<longrightarrow>
    GeneratePackageManifest h =
      Inr (removeInactivePackagesFromManifest h (parseManagerQuery osInfo managerQuery) manager)"
    by (simp add: GeneratePackageManifest_def enumeratePackages_def)
qed

theorem malformed_lines_skipped_witness:
  "OsPkgInfoList (parseManagerQuery \<lparr>Name = ''debian'', Version = ''11''\<rparr>
      (''linux-image-5.10.0-1-amd64,5.10.0-1'' @ NL @ ''linux-image-5.10.0-2-amd64,5.10.0-2'' @ NL @
       ''onlyonefield'' @ NL @ ''curl,7.74.0-1.3'' @ NL)) =
     [\<lparr>Os = ''debian'', OsVer = ''11'', Pkg = ''linux-image-5.10.0-1-amd64'', PkgVer = ''5.10.0-1''\<rparr>,
      \<lparr>Os = ''debian'', OsVer = ''11'', Pkg = ''linux-image-5.10.0-2-amd64'', PkgVer = ''5.10.0-2''\<rparr>,
      \<lparr>Os = ''debian'', OsVer = ''11'', Pkg = ''curl'', PkgVer = ''7.74.0-1.3''\<rparr>] \<and>
   GeneratePackageManifest debianHost =
     Inr \<lparr>OsPkgInfoList =
        [\<lparr>Os = ''debian'', OsVer = ''11'', Pkg = ''linux-image-5.10.0-2-amd64'', PkgVer = ''5.10.0-2''\<rparr>,
         \<lparr>Os = ''debian'', OsVer = ''11'', Pkg = ''curl'', PkgVer = ''7.74.0-1.3''\<rparr>]\<rparr>"
proof -
  let ?os = "\<lparr>Name = ''debian'', Version = ''11''\<rparr>"
  let ?q = "''linux-image-5.10.0-1-amd64,5.10.0-1'' @ NL @ ''linux-image-5.10.0-2-amd64,5.10.0-2'' @ NL @
       ''onlyonefield'' @ NL @ ''curl,7.74.0-1.3'' @ NL"
  note inst = malformed_lines_skipped [of ?os ?q debianHost "''dpkg-query''"]
  have g: "GetOSInfo debianHost = Inr ?os" by code_simp
  have d: "DetectPackageManager debianHost = Inr ''dpkg-query''" by code_simp
  have q: "queryPackageManager debianHost ''dpkg-query'' = Inr ?q" by code_simp
  have m: "map (\<lambda>pkg. \<lparr>Os = Name ?os, OsVer = Version ?os,
                  Pkg = takeWhile (\<lambda>c. c \<noteq> CHR '','') pkg,
                  PkgVer = drop (Suc (length (takeWhile (\<lambda>c. c \<noteq> CHR '','') pkg))) pkg\<rparr>)
       (filter (\<lambda>pkg. length (Split pkg '','') = 2) (Split (TrimSuffix ?q NL) NL)) =
     [\<lparr>Os = ''debian'', OsVer = ''11'', Pkg = ''linux-image-5.10.0-1-amd64'', PkgVer = ''5.10.0-1''\<rparr>,
      \<lparr>Os = ''debian'', OsVer = ''11'', Pkg = ''linux-image-5.10.0-2-amd64'', PkgVer = ''5.10.0-2''\<rparr>,
      \<lparr>Os = ''debian'', OsVer = ''11'', Pkg = ''curl'', PkgVer = ''7.74.0-1.3''\<rparr>]"
    by code_simp
  have r: "removeInactivePackagesFromManifest debianHost (parseManagerQuery ?os ?q) ''dpkg-query'' =
     \<lparr>OsPkgInfoList =
        [\<lparr>Os = ''debian'', OsVer = ''11'', Pkg = ''linux-image-5.10.0-2-amd64'', PkgVer = ''5.10.0-2''\<rparr>,
         \<lparr>Os = ''debian'', OsVer = ''11'', Pkg = ''curl'', PkgVer = ''7.74.0-1.3''\<rparr>]\<rparr>"
    by code_simp
  from inst m have 1: "OsPkgInfoList (parseManagerQuery ?os ?q) =
     [\<lparr>Os = ''debian'', OsVer = ''11'', Pkg = ''linux-image-5.10.0-1-amd64'', PkgVer = ''5.10.0-1''\<rparr>,
      \<lparr>Os = ''debian'', OsVer = ''11'', Pkg = ''linux-image-5.10.0-2-amd64'', PkgVer = ''5.10.0-2''\<rparr>,
      \<lparr>Os = ''debian'', OsVer = ''11'', Pkg = ''curl'', PkgVer = ''7.74.0-1.3''\<rparr>]"
    by (simp only:)
  from inst g d q have "GeneratePackageManifest debianHost =
      Inr (removeInactivePackagesFromManifest debianHost (parseManagerQuery ?os ?q) ''dpkg-query'')"
    by blast
  with r have 2: "GeneratePackageManifest debianHost =
     Inr \<lparr>OsPkgInfoList =
        [\<lparr>Os = ''debian'', OsVer = ''11'', Pkg = ''linux-image-5.10.0-2-amd64'', PkgVer = ''5.10.0-2''\<rparr>,
         \<lparr>Os = ''debian'', OsVer = ''11'', Pkg = ''curl'', PkgVer = ''7.74.0-1.3''\<rparr>]\<rparr>"
    by (simp only:)
  from 1 2 show ?thesis by (rule conjI)
qed

section \<open>The release file\<close>

text \<open>
  C8. For a release file that can be read and whose lines are all shorter than
  \<^verbatim>\<open>MaxScanTokenSize\<close> (65536 bytes), the scanner returns every line, \<open>GetOSInfo\<close>
  returns no error, the name is the value of \<^verbatim>\<open>ID=\<close> and the version the value of
  \<^verbatim>\<open>VERSION_ID=\<close>, with the double-quote characters at both ends removed, and the
  empty string where no line has the key; the lines that start with neither key can be
  deleted without changing the result.
\<close>

theorem os_info_extraction:
  assumes "osReleaseFile h = Some content"
    and "\<forall>line \<in> set (Split content NL). length line < MaxScanTokenSize"
  shows "scanLines content =
           map dropCR (if last (Split content NL) = [] then butlast (Split content NL)
                       else Split content NL) \<and>
         GetOSInfo h =
           Inr \<lparr>Name = releaseValue [] ''ID='' (scanLines content),
                Version = releaseValue [] ''VERSION_ID='' (scanLines content)\<rparr> \<and>
         GetOSInfo h =
           Inr (scanOSRelease
                  (filter (\<lambda>line. prefix ''ID='' line \<or> prefix ''VERSION_ID='' line)
                     (scanLines content))
                  \<lparr>Name = [], Version = []\<rparr>)"
proof -
  let ?keep = "\<lambda>line. prefix ''ID='' line \<or> prefix ''VERSION_ID='' line"
  have all: "\<forall>line \<in> set (scanLines content). CHR 0x0A \<notin> set line"
    by (simp add: scanLines_no_newline)
  then have kept: "\<forall>line \<in> set (filter ?keep (scanLines content)). CHR 0x0A \<notin> set line"
    by simp
  have "scanOSRelease (filter ?keep (scanLines content)) \<lparr>Name = [], Version = []\<rparr> =
        scanOSRelease (scanLines content) \<lparr>Name = [], Version = []\<rparr>"
    by (simp add: scanOSRelease_values [OF all] scanOSRelease_values [OF kept]
          releaseValue_filter)
  with assms(1) have "GetOSInfo h =
           Inr \<lparr>Name = releaseValue [] ''ID='' (scanLines content),
                Version = releaseValue [] ''VERSION_ID='' (scanLines content)\<rparr> \<and>
         GetOSInfo h =
           Inr (scanOSRelease (filter ?keep (scanLines content)) \<lparr>Name = [], Version = []\<rparr>)"
    by (simp add: GetOSInfo_def scanOSRelease_values [OF all])
  with scanLines_all_lines [OF assms(2)] show ?thesis by (rule conjI)
qed

theorem os_info_extraction_witness:
  "osReleaseFile (debianHost\<lparr>osReleaseFile := Some sampleRelease\<rparr>) = Some sampleRelease \<and>
   list_all (\<lambda>line. length line < MaxScanTokenSize) (Split sampleRelease NL) \<and>
   scanLines sampleRelease =
     [''NAME='' @ DQUOTE @ ''Debian GNU/Linux'' @ DQUOTE, ''ID=debian'', ''ID_LIKE=none'',
      ''VERSION_ID='' @ DQUOTE @ ''11'' @ DQUOTE,
      ''VERSION='' @ DQUOTE @ ''11 (bullseye)'' @ DQUOTE] \<and>
   GetOSInfo (debianHost\<lparr>osReleaseFile := Some sampleRelease\<rparr>) =
     Inr \<lparr>Name = ''debian'', Version = ''11''\<rparr> \<and>
   GetOSInfo (debianHost\<lparr>osReleaseFile := Some (''PRETTY_NAME=none'' @ NL)\<rparr>) =
     Inr \<lparr>Name = [], Version = []\<rparr>"
proof -
  let ?h = "debianHost\<lparr>osReleaseFile := Some sampleRelease\<rparr>"
  let ?e = "debianHost\<lparr>osReleaseFile := Some (''PRETTY_NAME=none'' @ NL)\<rparr>"
  have f: "osReleaseFile ?h = Some sampleRelease" by simp
  have g: "osReleaseFile ?e = Some (''PRETTY_NAME=none'' @ NL)" by simp
  have l: "list_all (\<lambda>line. length line < MaxScanTokenSize) (Split sampleRelease NL)"
          "list_all (\<lambda>line. length line < MaxScanTokenSize) (Split (''PRETTY_NAME=none'' @ NL) NL)"
    by code_simp+
  then have b: "\<forall>line \<in> set (Split sampleRelease NL). length line < MaxScanTokenSize"
          "\<forall>line \<in> set (Split (''PRETTY_NAME=none'' @ NL) NL). length line < MaxScanTokenSize"
    by (simp_all only: list_all_iff)
  have s: "map dropCR (if last (Split sampleRelease NL) = [] then butlast (Split sampleRelease NL)
                       else Split sampleRelease NL) =
     [''NAME='' @ DQUOTE @ ''Debian GNU/Linux'' @ DQUOTE, ''ID=debian'', ''ID_LIKE=none'',
      ''VERSION_ID='' @ DQUOTE @ ''11'' @ DQUOTE,
      ''VERSION='' @ DQUOTE @ ''11 (bullseye)'' @ DQUOTE]"
    by code_simp
  have v: "releaseValue [] ''ID='' (scanLines sampleRelease) = ''debian''"
          "releaseValue [] ''VERSION_ID='' (scanLines sampleRelease) = ''11''"
          "releaseValue [] ''ID='' (scanLines (''PRETTY_NAME=none'' @ NL)) = []"
          "releaseValue [] ''VERSION_ID='' (scanLines (''PRETTY_NAME=none'' @ NL)) = []"
    by code_simp+
  from os_info_extraction [OF f b(1)] os_info_extraction [OF g b(2)] v f l(1) s
  show ?thesis by simp
qed

text \<open>
  A line of 65536 bytes that starts with neither key, in front of the line with the
  identifier: the scan ends at the long line, the identifier is never read, and no error
  is returned. Without the long line the identifier is \<^verbatim>\<open>debian\<close>.
\<close>

theorem long_line_stops_scan_counterexample:
  "\<not> prefix ''ID='' longLine \<and> \<not> prefix ''VERSION_ID='' longLine \<and>
   GetOSInfo (debianHost\<lparr>osReleaseFile := Some (longLine @ NL @ ''ID=debian'' @ NL)\<rparr>) =
     Inr \<lparr>Name = [], Version = []\<rparr> \<and>
   GetOSInfo (debianHost\<lparr>osReleaseFile := Some (''ID=debian'' @ NL)\<rparr>) =
     Inr \<lparr>Name = ''debian'', Version = []\<rparr>"
proof -
  have "hd longLine = CHR ''x''" by (simp add: longLine_def)
  then have p: "\<not> prefix ''ID='' longLine" "\<not> prefix ''VERSION_ID='' longLine"
    by (simp_all add: not_prefix_hd)
  have a: "GetOSInfo (debianHost\<lparr>osReleaseFile := Some (longLine @ NL @ ''ID=debian'' @ NL)\<rparr>) =
     Inr \<lparr>Name = [], Version = []\<rparr>"
    by (simp add: GetOSInfo_def scanLines_longLine)
  have b: "GetOSInfo (debianHost\<lparr>osReleaseFile := Some (''ID=debian'' @ NL)\<rparr>) =
     Inr \<lparr>Name = ''debian'', Version = []\<rparr>"
    by code_simp
  from p a b show ?thesis by (intro conjI)
qed

section \<open>The \<^verbatim>\<open>apk\<close> case\<close>

text \<open>
  C9. For two listings of equal line counts the query text has, at each position, the
  line made of the bare name, a comma, and the versioned entry with the first occurrence
  of the bare name removed and every leading and every trailing hyphen removed. When the
  entry is the name, a hyphen and a version that neither starts nor ends with a hyphen,
  that is the version.
\<close>

theorem apk_reconstruction:
  assumes "apk_info h = Inr apkInfo" and "apk_info_v h = Inr apkInfoWithVersion"
    and "length (Split (TrimSuffix apkInfoWithVersion NL) NL) =
         length (Split (TrimSuffix apkInfo NL) NL)"
  shows "queryPackageManager h ''apk'' =
           Inr (Join (map2 (\<lambda>name pkg. name @ '','' @ Trim (Replace1 pkg name []) ''-'')
                        (Split (TrimSuffix apkInfo NL) NL)
                        (Split (TrimSuffix apkInfoWithVersion NL) NL)) NL) \<and>
         (\<forall>i < length (Split (TrimSuffix apkInfo NL) NL). \<forall>ver.
            Split (TrimSuffix apkInfoWithVersion NL) NL ! i =
              Split (TrimSuffix apkInfo NL) NL ! i @ ''-'' @ ver \<and>
            (ver = [] \<or> (hd ver \<noteq> CHR ''-'' \<and> last ver \<noteq> CHR ''-'')) \<longrightarrow>
            map2 (\<lambda>name pkg. name @ '','' @ Trim (Replace1 pkg name []) ''-'')
                 (Split (TrimSuffix apkInfo NL) NL)
                 (Split (TrimSuffix apkInfoWithVersion NL) NL) ! i =
              Split (TrimSuffix apkInfo NL) NL ! i @ '','' @ ver)"
proof (intro conjI allI impI)
  from assms(3) show "queryPackageManager h ''apk'' =
           Inr (Join (map2 (\<lambda>name pkg. name @ '','' @ Trim (Replace1 pkg name []) ''-'')
                        (Split (TrimSuffix apkInfo NL) NL)
                        (Split (TrimSuffix apkInfoWithVersion NL) NL)) NL)"
    by (simp add: queryPackageManager_apk [OF assms(1,2)] apkLoop_map2)
next
  fix i ver
  assume i: "i < length (Split (TrimSuffix apkInfo NL) NL)"
    and v: "Split (TrimSuffix apkInfoWithVersion NL) NL ! i =
              Split (TrimSuffix apkInfo NL) NL ! i @ ''-'' @ ver \<and>
            (ver = [] \<or> (hd ver \<noteq> CHR ''-'' \<and> last ver \<noteq> CHR ''-''))"
  from v have "Trim (Replace1 (Split (TrimSuffix apkInfoWithVersion NL) NL ! i)
                  (Split (TrimSuffix apkInfo NL) NL ! i) []) ''-'' = ver"
    by (auto simp: Replace1_prefix Trim_hyphen_version)
  with i assms(3) show "map2 (\<lambda>name pkg. name @ '','' @ Trim (Replace1 pkg name []) ''-'')
                 (Split (TrimSuffix apkInfo NL) NL)
                 (Split (TrimSuffix apkInfoWithVersion NL) NL) ! i =
              Split (TrimSuffix apkInfo NL) NL ! i @ '','' @ ver"
    by simp
qed

theorem apk_reconstruction_witness:
  "apk_info alpineHost = Inr (''musl'' @ NL @ ''busybox'' @ NL @ ''alpine-baselayout'' @ NL) \<and>
   apk_info_v alpineHost = Inr (''musl-1.1.24-r2'' @ NL @ ''busybox-1.31.1-r9'' @ NL @
                                   ''alpine-baselayout-3.2.0-r3'' @ NL) \<and>
   queryPackageManager alpineHost ''apk'' =
     Inr (''musl,1.1.24-r2'' @ NL @ ''busybox,1.31.1-r9'' @ NL @ ''alpine-baselayout,3.2.0-r3'') \<and>
   Split (TrimSuffix (''musl-1.1.24-r2'' @ NL @ ''busybox-1.31.1-r9'' @ NL @
                      ''alpine-baselayout-3.2.0-r3'' @ NL) NL) NL ! 1 =
     ''busybox'' @ ''-'' @ ''1.31.1-r9'' \<and>
   map2 (\<lambda>name pkg. name @ '','' @ Trim (Replace1 pkg name []) ''-'')
     (Split (TrimSuffix (''musl'' @ NL @ ''busybox'' @ NL @ ''alpine-baselayout'' @ NL) NL) NL)
     (Split (TrimSuffix (''musl-1.1.24-r2'' @ NL @ ''busybox-1.31.1-r9'' @ NL @
                         ''alpine-baselayout-3.2.0-r3'' @ NL) NL) NL) ! 1 =
     ''busybox'' @ '','' @ ''1.31.1-r9''"
proof -
  let ?a = "''musl'' @ NL @ ''busybox'' @ NL @ ''alpine-baselayout'' @ NL"
  let ?v = "''musl-1.1.24-r2'' @ NL @ ''busybox-1.31.1-r9'' @ NL @ ''alpine-baselayout-3.2.0-r3'' @ NL"
  have a: "apk_info alpineHost = Inr ?a" by (simp add: alpineHost_def)
  have v: "apk_info_v alpineHost = Inr ?v" by (simp add: alpineHost_def)
  have n: "length (Split (TrimSuffix ?v NL) NL) = length (Split (TrimSuffix ?a NL) NL)"
    by code_simp
  have e: "Join (map2 (\<lambda>name pkg. name @ '','' @ Trim (Replace1 pkg name []) ''-'')
                        (Split (TrimSuffix ?a NL) NL) (Split (TrimSuffix ?v NL) NL)) NL =
           ''musl,1.1.24-r2'' @ NL @ ''busybox,1.31.1-r9'' @ NL @ ''alpine-baselayout,3.2.0-r3''"
    by code_simp
  from apk_reconstruction [OF a v n]
  have "queryPackageManager alpineHost ''apk'' =
           Inr (Join (map2 (\<lambda>name pkg. name @ '','' @ Trim (Replace1 pkg name []) ''-'')
                        (Split (TrimSuffix ?a NL) NL) (Split (TrimSuffix ?v NL) NL)) NL)"
    by (rule conjunct1)
  with e have 1: "queryPackageManager alpineHost ''apk'' =
     Inr (''musl,1.1.24-r2'' @ NL @ ''busybox,1.31.1-r9'' @ NL @ ''alpine-baselayout,3.2.0-r3'')"
    by (simp only:)
  have i: "1 < length (Split (TrimSuffix ?a NL) NL)" by code_simp
  have b: "Split (TrimSuffix ?a NL) NL ! 1 = ''busybox''" by code_simp
  have w: "Split (TrimSuffix ?v NL) NL ! 1 = ''busybox'' @ ''-'' @ ''1.31.1-r9''" by code_simp
  have f: "''1.31.1-r9'' = [] \<or> (hd ''1.31.1-r9'' \<noteq> CHR ''-'' \<and> last ''1.31.1-r9'' \<noteq> CHR ''-'')"
    by simp
  from apk_reconstruction [OF a v n]
  have "\<forall>i < length (Split (TrimSuffix ?a NL) NL). \<forall>ver.
            Split (TrimSuffix ?v NL) NL ! i = Split (TrimSuffix ?a NL) NL ! i @ ''-'' @ ver \<and>
            (ver = [] \<or> (hd ver \<noteq> CHR ''-'' \<and> last ver \<noteq> CHR ''-'')) \<longrightarrow>
            map2 (\<lambda>name pkg. name @ '','' @ Trim (Replace1 pkg name []) ''-'')
                 (Split (TrimSuffix ?a NL) NL) (Split (TrimSuffix ?v NL) NL) ! i =
              Split (TrimSuffix ?a NL) NL ! i @ '','' @ ver"
    by (rule conjunct2)
  with i have "Split (TrimSuffix ?v NL) NL ! 1 = Split (TrimSuffix ?a NL) NL ! 1 @ ''-'' @ ''1.31.1-r9'' \<and>
            (''1.31.1-r9'' = [] \<or> (hd ''1.31.1-r9'' \<noteq> CHR ''-'' \<and> last ''1.31.1-r9'' \<noteq> CHR ''-'')) \<longrightarrow>
            map2 (\<lambda>name pkg. name @ '','' @ Trim (Replace1 pkg name []) ''-'')
                 (Split (TrimSuffix ?a NL) NL) (Split (TrimSuffix ?v NL) NL) ! 1 =
              Split (TrimSuffix ?a NL) NL ! 1 @ '','' @ ''1.31.1-r9''"
    by blast
  with w f have 2: "map2 (\<lambda>name pkg. name @ '','' @ Trim (Replace1 pkg name []) ''-'')
                 (Split (TrimSuffix ?a NL) NL) (Split (TrimSuffix ?v NL) NL) ! 1 =
              ''busybox'' @ '','' @ ''1.31.1-r9''"
    by (simp only: b simp_thms)
  from a v 1 w 2 show ?thesis by (intro conjI)
qed

text \<open>
  A versioned entry that ends with a hyphen loses it: stripping the name prefix and
  the leading hyphen only would leave \<^verbatim>\<open>1.0-\<close>, the code returns \<^verbatim>\<open>1.0\<close>.
\<close>

theorem apk_trailing_hyphen_counterexample:
  "queryPackageManager
     (alpineHost\<lparr>apk_info := Inr (''musl'' @ NL @ ''pkg'' @ NL),
                 apk_info_v := Inr (''musl-1.1.24-r2'' @ NL @ ''pkg-1.0-'' @ NL)\<rparr>) ''apk'' =
     Inr (''musl,1.1.24-r2'' @ NL @ ''pkg,1.0'') \<and>
   TrimLeft (TrimPrefix ''pkg-1.0-'' ''pkg'') ''-'' = ''1.0-'' \<and>
   queryPackageManager
     (alpineHost\<lparr>apk_info := Inr (''musl'' @ NL @ ''pkg'' @ NL),
                 apk_info_v := Inr (''musl-1.1.24-r2'' @ NL @ ''pkg-1.0-'' @ NL)\<rparr>) ''apk'' \<noteq>
     Inr (Join [''musl'' @ '','' @ TrimLeft (TrimPrefix ''musl-1.1.24-r2'' ''musl'') ''-'',
                ''pkg'' @ '','' @ TrimLeft (TrimPrefix ''pkg-1.0-'' ''pkg'') ''-''] NL)"
  by code_simp

text \<open>
  C10. The loop reads \<open>apkInfoArray[i]\<close> at every position of the versioned listing
  with no check. When the versioned listing has at most as many lines as the listing of
  bare names, every read is within bounds and the query returns its text; when it has
  more, the read at the first position beyond the bare names panics.
\<close>

theorem apk_index_in_bounds:
  assumes "apk_info h = Inr apkInfo" and "apk_info_v h = Inr apkInfoWithVersion"
  shows "(length (Split (TrimSuffix apkInfoWithVersion NL) NL) \<le>
            length (Split (TrimSuffix apkInfo NL) NL) \<longrightarrow>
          (\<exists>managerQuery. queryPackageManager h ''apk'' = Inr managerQuery)) \<and>
         (length (Split (TrimSuffix apkInfo NL) NL) <
            length (Split (TrimSuffix apkInfoWithVersion NL) NL) \<longrightarrow>
          queryPackageManager h ''apk'' =
            Inl (PanicIndexOutOfRange (length (Split (TrimSuffix apkInfo NL) NL))
                   (length (Split (TrimSuffix apkInfo NL) NL))))"
proof (intro conjI impI)
  assume "length (Split (TrimSuffix apkInfoWithVersion NL) NL) \<le>
            length (Split (TrimSuffix apkInfo NL) NL)"
  then show "\<exists>managerQuery. queryPackageManager h ''apk'' = Inr managerQuery"
    by (simp add: queryPackageManager_apk [OF assms] apkLoop_map2)
next
  assume "length (Split (TrimSuffix apkInfo NL) NL) <
            length (Split (TrimSuffix apkInfoWithVersion NL) NL)"
  then show "queryPackageManager h ''apk'' =
            Inl (PanicIndexOutOfRange (length (Split (TrimSuffix apkInfo NL) NL))
                   (length (Split (TrimSuffix apkInfo NL) NL)))"
    by (simp add: queryPackageManager_apk [OF assms] apkLoop_out_of_bounds)
qed

theorem apk_index_in_bounds_witness:
  "apk_info alpineHost = Inr (''musl'' @ NL @ ''busybox'' @ NL @ ''alpine-baselayout'' @ NL) \<and>
   apk_info_v alpineHost = Inr (''musl-1.1.24-r2'' @ NL @ ''busybox-1.31.1-r9'' @ NL @
                                   ''alpine-baselayout-3.2.0-r3'' @ NL) \<and>
   (\<exists>managerQuery. queryPackageManager alpineHost ''apk'' = Inr managerQuery) \<and>
   queryPackageManager (alpineHost\<lparr>apk_info := Inr (''musl'' @ NL @ ''busybox'' @ NL)\<rparr>) ''apk'' =
     Inl (PanicIndexOutOfRange 2 2)"
proof -
  let ?a = "''musl'' @ NL @ ''busybox'' @ NL @ ''alpine-baselayout'' @ NL"
  let ?s = "''musl'' @ NL @ ''busybox'' @ NL"
  let ?v = "''musl-1.1.24-r2'' @ NL @ ''busybox-1.31.1-r9'' @ NL @ ''alpine-baselayout-3.2.0-r3'' @ NL"
  let ?short = "alpineHost\<lparr>apk_info := Inr ?s\<rparr>"
  have a: "apk_info alpineHost = Inr ?a" by (simp add: alpineHost_def)
  have v: "apk_info_v alpineHost = Inr ?v" by (simp add: alpineHost_def)
  have a': "apk_info ?short = Inr ?s" by simp
  have v': "apk_info_v ?short = Inr ?v" by (simp add: alpineHost_def)
  have n: "length (Split (TrimSuffix ?a NL) NL) = 3" "length (Split (TrimSuffix ?v NL) NL) = 3"
          "length (Split (TrimSuffix ?s NL) NL) = 2"
    by code_simp+
  from apk_index_in_bounds [OF a v] n
  have 1: "\<exists>managerQuery. queryPackageManager alpineHost ''apk'' = Inr managerQuery" by simp
  from apk_index_in_bounds [OF a' v'] n
  have 2: "queryPackageManager ?short ''apk'' = Inl (PanicIndexOutOfRange 2 2)" by simp
  from a v 1 2 show ?thesis by (intro conjI)
qed

end
